theory Spec2Isabelle
  imports Main
begin

section \<open>Errors of the Go standard library\<close>

text \<open>
  A Go \<^verbatim>\<open>error\<close> value is either \<^verbatim>\<open>nil\<close> or an error object; it is modelled as
  \<open>error option\<close> with \<open>None\<close> for \<^verbatim>\<open>nil\<close>. An error object is either an error of some
  other package (identified by its label) or the \<^verbatim>\<open>*joinError\<close> that \<^verbatim>\<open>errors.Join\<close>
  allocates, which wraps the list of errors it was given. An error of another package is
  opaque: it wraps nothing. Identity of error objects is structural equality here.
\<close>

datatype error = Err string | joinError "error list"

text \<open>The non-nil entries of an argument list, in their order.\<close>

fun nonnil :: "error option list \<Rightarrow> error list" where
  "nonnil [] = []"
| "nonnil (None # errs) = nonnil errs"
| "nonnil (Some e # errs) = e # nonnil errs"

text \<open>
  \<^verbatim>\<open>errors.Join(errs...)\<close>: nil values are discarded; the result is nil when nothing is
  left, and otherwise a new error that wraps what is left. Nothing is flattened.
\<close>

definition Join :: "error option list \<Rightarrow> error option" where
  "Join errs = (if length (nonnil errs) = 0 then None else Some (joinError (nonnil errs)))"

text \<open>
  \<^verbatim>\<open>errors.Is(err, target)\<close>: the tree under \<open>err\<close> is walked depth first, through the
  lists that joined errors unwrap to, looking for an error equal to the target.
\<close>

fun is_err :: "error \<Rightarrow> error \<Rightarrow> bool" where
  "is_err (Err s) target = (Err s = target)"
| "is_err (joinError errs) target = (joinError errs = target \<or> list_ex (\<lambda>e. is_err e target) errs)"

definition Is :: "error option \<Rightarrow> error option \<Rightarrow> bool" where
  "Is err target =
     (case err of
        None \<Rightarrow> err = target
      | Some e \<Rightarrow> (case target of None \<Rightarrow> err = target | Some t \<Rightarrow> is_err e t))"

section \<open>Contexts, teardown functions and providers\<close>

text \<open>
  A \<^verbatim>\<open>context.Context\<close> is identified by a number and is either canceled or not.
\<close>

datatype "context" = Ctx (ctx_id: nat) (canceled: bool)

text \<open>
  An entry of \<^verbatim>\<open>[]func(context.Context) error\<close>. The functions registered are methods of
  the OpenTelemetry SDK: they act on the state \<open>'w\<close> of that library, which this
  repository cannot see, and return an error or nil. They are assumed to return.
\<close>

type_synonym 'w teardown = "context \<Rightarrow> 'w \<Rightarrow> error option \<times> 'w"

record 'w provider =
  Shutdown :: "'w teardown"

datatype propagator = TraceContext | Baggage | CompositeTextMapPropagator "propagator list"

datatype exporter = Exporter string

section \<open>The state a call of setupOTelSDK works on\<close>

datatype signal = Traces | Metrics | Logs

text \<open>
  The history records, in program order, the statements of \<^verbatim>\<open>setupOTelSDK\<close> and of its
  \<^verbatim>\<open>shutdown\<close> closure that act on the registry or on the outside: setting the global
  propagator, calling a provider constructor, appending to \<^verbatim>\<open>shutdownFuncs\<close>, publishing
  a provider globally, calling the entry at a position of the range loop with a context,
  and the assignment \<^verbatim>\<open>shutdownFuncs = nil\<close>.
\<close>

datatype event =
    SetPropagator
  | Construct signal
  | Append signal
  | SetProvider signal
  | Call nat "context"
  | Clear

record 'w state =
  shutdownFuncs :: "'w teardown list"
  TextMapPropagator :: "propagator option"
  TracerProvider :: "'w provider option"
  MeterProvider :: "'w provider option"
  LoggerProvider :: "'w provider option"
  world :: 'w
  history :: "event list"

section \<open>shutdown\<close>

text \<open>
  \<^verbatim>\<open>for _, fn := range shutdownFuncs { err = errors.Join(err, fn(ctx)) }\<close>, with the
  position of the entry, the value of \<^verbatim>\<open>err\<close> so far and the state as loop variables.
\<close>

fun range_loop ::
  "context \<Rightarrow> 'w teardown list \<Rightarrow> nat \<Rightarrow> error option \<Rightarrow> 'w state \<Rightarrow> error option \<times> 'w state" where
  "range_loop ctx [] i err st = (err, st)"
| "range_loop ctx (fn # fns) i err st =
     (case fn ctx (world st) of
        (r, w) \<Rightarrow>
          range_loop ctx fns (Suc i) (Join [err, r])
            (st\<lparr>world := w, history := history st @ [Call i ctx]\<rparr>))"

definition shutdown :: "context \<Rightarrow> 'w state \<Rightarrow> error option \<times> 'w state" where
  "shutdown ctx st =
     (case range_loop ctx (shutdownFuncs st) 0 None st of
        (err, st') \<Rightarrow> (err, st'\<lparr>shutdownFuncs := [], history := history st' @ [Clear]\<rparr>))"

text \<open>\<^verbatim>\<open>handleErr\<close>: \<^verbatim>\<open>err = errors.Join(inErr, shutdown(ctx))\<close>.\<close>

definition handleErr :: "context \<Rightarrow> error option \<Rightarrow> 'w state \<Rightarrow> error option \<times> 'w state" where
  "handleErr ctx inErr st =
     (case shutdown ctx st of (r, st') \<Rightarrow> (Join [inErr, r], st'))"

section \<open>The OpenTelemetry packages called by this repository\<close>

text \<open>
  The exporter constructors of \<^verbatim>\<open>autoexport\<close> (in \<^verbatim>\<open>otel.go\<close>, of the \<^verbatim>\<open>stdout\<close>
  exporter packages, which take no context: the case of functions that ignore it) may
  fail; the provider constructors of the SDK do not. Both are parameters. The resource
  and the options given to the provider constructors are constants of the repository and
  are part of these parameters.
\<close>

record 'w otel =
  NewSpanExporter :: "context \<Rightarrow> error + exporter"
  NewMetricReader :: "context \<Rightarrow> error + exporter"
  NewLogExporter :: "context \<Rightarrow> error + exporter"
  NewTracerProvider :: "exporter \<Rightarrow> 'w provider"
  NewMeterProvider :: "exporter \<Rightarrow> 'w provider"
  NewLoggerProvider :: "exporter \<Rightarrow> 'w provider"

definition newPropagator :: propagator where
  "newPropagator = CompositeTextMapPropagator [TraceContext, Baggage]"

text \<open>
  Each constructor of the repository returns \<^verbatim>\<open>(nil, err)\<close> when the exporter cannot be
  made and \<^verbatim>\<open>(provider, nil)\<close> otherwise: \<open>Inl err\<close> and \<open>Inr provider\<close>.
\<close>

definition newTracerProvider :: "'w otel \<Rightarrow> context \<Rightarrow> error + 'w provider" where
  "newTracerProvider lib ctx =
     (case NewSpanExporter lib ctx of
        Inl err \<Rightarrow> Inl err
      | Inr traceExporter \<Rightarrow> Inr (NewTracerProvider lib traceExporter))"

definition newMeterProvider :: "'w otel \<Rightarrow> context \<Rightarrow> error + 'w provider" where
  "newMeterProvider lib ctx =
     (case NewMetricReader lib ctx of
        Inl err \<Rightarrow> Inl err
      | Inr metricReader \<Rightarrow> Inr (NewMeterProvider lib metricReader))"

definition newLoggerProvider :: "'w otel \<Rightarrow> context \<Rightarrow> error + 'w provider" where
  "newLoggerProvider lib ctx =
     (case NewLogExporter lib ctx of
        Inl err \<Rightarrow> Inl err
      | Inr logExporter \<Rightarrow> Inr (NewLoggerProvider lib logExporter))"

section \<open>setupOTelSDK\<close>

definition log_event :: "event \<Rightarrow> 'w state \<Rightarrow> 'w state" where
  "log_event ev st = st\<lparr>history := history st @ [ev]\<rparr>"

text \<open>\<^verbatim>\<open>shutdownFuncs = append(shutdownFuncs, f)\<close>\<close>

definition append_func :: "signal \<Rightarrow> 'w teardown \<Rightarrow> 'w state \<Rightarrow> 'w state" where
  "append_func sig f st = log_event (Append sig) (st\<lparr>shutdownFuncs := shutdownFuncs st @ [f]\<rparr>)"

text \<open>The setters of the process-wide state.\<close>

definition SetTextMapPropagator :: "propagator \<Rightarrow> 'w state \<Rightarrow> 'w state" where
  "SetTextMapPropagator prop st = log_event SetPropagator (st\<lparr>TextMapPropagator := Some prop\<rparr>)"

definition SetTracerProvider :: "'w provider \<Rightarrow> 'w state \<Rightarrow> 'w state" where
  "SetTracerProvider tp st = log_event (SetProvider Traces) (st\<lparr>TracerProvider := Some tp\<rparr>)"

definition SetMeterProvider :: "'w provider \<Rightarrow> 'w state \<Rightarrow> 'w state" where
  "SetMeterProvider mp st = log_event (SetProvider Metrics) (st\<lparr>MeterProvider := Some mp\<rparr>)"

definition SetLoggerProvider :: "'w provider \<Rightarrow> 'w state \<Rightarrow> 'w state" where
  "SetLoggerProvider lp st = log_event (SetProvider Logs) (st\<lparr>LoggerProvider := Some lp\<rparr>)"

type_synonym 'w shutdown_func = "context \<Rightarrow> 'w state \<Rightarrow> error option \<times> 'w state"

text \<open>
  \<^verbatim>\<open>setupOTelSDK\<close> is the same in \<^verbatim>\<open>cmd/dice/otel.go\<close> and in the variant that
  exports through \<^verbatim>\<open>autoexport\<close>, but for the context handed to the constructors.
  The function returns its two named results, \<^verbatim>\<open>shutdown\<close> and \<^verbatim>\<open>err\<close>, and the state
  it leaves. A nil function value is \<open>None\<close>. The variable \<^verbatim>\<open>shutdownFuncs\<close> is declared
  by the call, so it starts empty whatever the state before; the closure \<^verbatim>\<open>shutdown\<close>
  refers to that variable, which is the field \<open>shutdownFuncs\<close> of the state.
\<close>

definition setupOTelSDK ::
  "'w otel \<Rightarrow> context \<Rightarrow> 'w state \<Rightarrow> ('w shutdown_func option \<times> error option) \<times> 'w state" where
  "setupOTelSDK lib ctx st0 =
     (let st1 = st0\<lparr>shutdownFuncs := []\<rparr>;
          prop = newPropagator;
          st2 = SetTextMapPropagator prop st1
      in case newTracerProvider lib ctx of
           Inl err \<Rightarrow>
             (case handleErr ctx (Some err) (log_event (Construct Traces) st2) of
                (err', st) \<Rightarrow> ((Some shutdown, err'), st))
         | Inr tracerProvider \<Rightarrow>
             (let st3 = append_func Traces (Shutdown tracerProvider) (log_event (Construct Traces) st2);
                  st4 = SetTracerProvider tracerProvider st3
              in case newMeterProvider lib ctx of
                   Inl err \<Rightarrow>
                     (case handleErr ctx (Some err) (log_event (Construct Metrics) st4) of
                        (err', st) \<Rightarrow> ((Some shutdown, err'), st))
                 | Inr meterProvider \<Rightarrow>
                     (let st5 = append_func Metrics (Shutdown meterProvider)
                                  (log_event (Construct Metrics) st4);
                          st6 = SetMeterProvider meterProvider st5
                      in case newLoggerProvider lib ctx of
                           Inl err \<Rightarrow>
                             (case handleErr ctx (Some err) (log_event (Construct Logs) st6) of
                                (err', st) \<Rightarrow> ((Some shutdown, err'), st))
                         | Inr loggerProvider \<Rightarrow>
                             (let st7 = append_func Logs (Shutdown loggerProvider)
                                          (log_event (Construct Logs) st6);
                                  st8 = SetLoggerProvider loggerProvider st7
                              in ((Some shutdown, None), st8)))))"

section \<open>Notions used to state the properties\<close>

text \<open>
  Invoking every function of a list once, from the first to the last, each with the same
  context and on the state the one before left: the list of what they returned and the
  state at the end. This is what the specification calls invoking every registered
  teardown operation in registration order.
\<close>

fun invoke_all :: "context \<Rightarrow> 'w teardown list \<Rightarrow> 'w \<Rightarrow> error option list \<times> 'w" where
  "invoke_all ctx [] w = ([], w)"
| "invoke_all ctx (fn # fns) w =
     (case fn ctx w of
        (r, w') \<Rightarrow> (case invoke_all ctx fns w' of (rs, w'') \<Rightarrow> (r # rs, w'')))"

text \<open>The results of the registered operations of a state, were they all invoked.\<close>

definition results :: "context \<Rightarrow> 'w state \<Rightarrow> error option list" where
  "results ctx st = fst (invoke_all ctx (shutdownFuncs st) (world st))"

text \<open>Joining a list of results one after the other onto a first value.\<close>

definition aggregate_from :: "error option \<Rightarrow> error option list \<Rightarrow> error option" where
  "aggregate_from err rs = foldl (\<lambda>acc r. Join [acc, r]) err rs"

definition aggregate :: "error option list \<Rightarrow> error option" where
  "aggregate rs = aggregate_from None rs"

text \<open>The events that a run from \<open>st\<close> to \<open>st'\<close> added to the history.\<close>

definition new_events :: "'w state \<Rightarrow> 'w state \<Rightarrow> event list" where
  "new_events st st' = drop (length (history st)) (history st')"

text \<open>
  The providers a call of the setup gets from its constructors before the first
  constructor that fails, in the order of the calls, and the error of that constructor
  (nil when none fails).
\<close>

definition constructed :: "'w otel \<Rightarrow> context \<Rightarrow> 'w provider list" where
  "constructed lib ctx =
     (case newTracerProvider lib ctx of
        Inl e \<Rightarrow> []
      | Inr tp \<Rightarrow> tp #
          (case newMeterProvider lib ctx of
             Inl e \<Rightarrow> []
           | Inr mp \<Rightarrow> mp #
               (case newLoggerProvider lib ctx of Inl e \<Rightarrow> [] | Inr lp \<Rightarrow> [lp])))"

definition construction_error :: "'w otel \<Rightarrow> context \<Rightarrow> error option" where
  "construction_error lib ctx =
     (case newTracerProvider lib ctx of
        Inl e \<Rightarrow> Some e
      | Inr tp \<Rightarrow>
          (case newMeterProvider lib ctx of
             Inl e \<Rightarrow> Some e
           | Inr mp \<Rightarrow>
               (case newLoggerProvider lib ctx of Inl e \<Rightarrow> Some e | Inr lp \<Rightarrow> None)))"

text \<open>The constructor and the global of a signal.\<close>

fun constructor :: "signal \<Rightarrow> 'w otel \<Rightarrow> context \<Rightarrow> error + 'w provider" where
  "constructor Traces = newTracerProvider"
| "constructor Metrics = newMeterProvider"
| "constructor Logs = newLoggerProvider"

fun global_provider :: "signal \<Rightarrow> 'w state \<Rightarrow> 'w provider option" where
  "global_provider Traces = TracerProvider"
| "global_provider Metrics = MeterProvider"
| "global_provider Logs = LoggerProvider"

text \<open>The steps of a setup in which no constructor fails, and the kinds of events.\<close>

definition construction_steps :: "event list" where
  "construction_steps =
     [Construct Traces, Append Traces, SetProvider Traces,
      Construct Metrics, Append Metrics, SetProvider Metrics,
      Construct Logs, Append Logs, SetProvider Logs]"

fun is_step :: "event \<Rightarrow> bool" where
  "is_step (Construct s) = True"
| "is_step (Append s) = True"
| "is_step (SetProvider s) = True"
| "is_step ev = False"

fun is_append :: "event \<Rightarrow> bool" where
  "is_append (Append s) = True"
| "is_append ev = False"

fun is_call :: "event \<Rightarrow> bool" where
  "is_call (Call k ctx) = True"
| "is_call ev = False"

text \<open>
  Reading a list from its head, \<open>a\<close> is met before \<open>b\<close> is, or \<open>b\<close> is not met.
\<close>

fun precedes :: "'a \<Rightarrow> 'a \<Rightarrow> 'a list \<Rightarrow> bool" where
  "precedes a b [] = True"
| "precedes a b (x # xs) = (if x = a then True else if x = b then False else precedes a b xs)"

text \<open>
  A caller of the setup: it calls the function the setup returned once for each context
  of a list, one call after the other, and does nothing else with the instance. The state
  at the end.
\<close>

definition lifetime :: "'w otel \<Rightarrow> context \<Rightarrow> context list \<Rightarrow> 'w state \<Rightarrow> 'w state" where
  "lifetime lib ctx cs st0 =
     (case setupOTelSDK lib ctx st0 of
        ((None, err), st) \<Rightarrow> st
      | ((Some f, err), st) \<Rightarrow> fold (\<lambda>c s. snd (f c s)) cs st)"

section \<open>Test operations and inputs\<close>

text \<open>
  A teardown operation that appends its index to a shared log, the state of the outside
  being that log, and returns what \<open>res\<close> says for the context.
\<close>

definition logging_op :: "nat \<Rightarrow> (context \<Rightarrow> error option) \<Rightarrow> (nat list) teardown" where
  "logging_op k res = (\<lambda>ctx w. (res ctx, w @ [k]))"

text \<open>A state with the given registry, nothing published and an empty history.\<close>

definition registry_state :: "'w teardown list \<Rightarrow> 'w \<Rightarrow> 'w state" where
  "registry_state fns w =
     \<lparr>shutdownFuncs = fns, TextMapPropagator = None, TracerProvider = None,
      MeterProvider = None, LoggerProvider = None, world = w, history = []\<rparr>"

definition disk_full_ops :: "(nat list) teardown list" where
  "disk_full_ops =
     [logging_op 0 (\<lambda>ctx. None),
      logging_op 1 (\<lambda>ctx. Some (Err ''disk full'')),
      logging_op 2 (\<lambda>ctx. if canceled ctx then Some (Err ''context canceled'') else None)]"

text \<open>
  A library for tests. Each exporter constructor fails with the error given for it, if
  one is given. The providers log their index when they are shut down: the tracer
  provider fails to flush, the meter provider fails when the context is canceled, the
  logger provider succeeds.
\<close>

definition test_exporter :: "string \<Rightarrow> error option \<Rightarrow> context \<Rightarrow> error + exporter" where
  "test_exporter name failure ctx = (case failure of None \<Rightarrow> Inr (Exporter name) | Some e \<Rightarrow> Inl e)"

definition test_lib :: "error option \<Rightarrow> error option \<Rightarrow> error option \<Rightarrow> (nat list) otel" where
  "test_lib span_failure reader_failure log_failure =
     \<lparr>NewSpanExporter = test_exporter ''span'' span_failure,
      NewMetricReader = test_exporter ''reader'' reader_failure,
      NewLogExporter = test_exporter ''log'' log_failure,
      NewTracerProvider = (\<lambda>x. \<lparr>Shutdown = logging_op 0 (\<lambda>ctx. Some (Err ''flush failed''))\<rparr>),
      NewMeterProvider = (\<lambda>x. \<lparr>Shutdown = logging_op 1
         (\<lambda>ctx. if canceled ctx then Some (Err ''context canceled'') else None)\<rparr>),
      NewLoggerProvider = (\<lambda>x. \<lparr>Shutdown = logging_op 2 (\<lambda>ctx. None)\<rparr>)\<rparr>"

section \<open>The loop of shutdown\<close>

lemma range_loop_eq:
  "range_loop ctx fns i err st =
     (aggregate_from err (fst (invoke_all ctx fns (world st))),
      st\<lparr>world := snd (invoke_all ctx fns (world st)),
         history := history st @ map (\<lambda>k. Call k ctx) [i..<i + length fns]\<rparr>)"
proof (induction fns arbitrary: i err st)
  case Nil
  then show ?case by (simp add: aggregate_from_def)
next
  case (Cons fn fns)
  have upt: "[i..<i + length (fn # fns)] = i # [Suc i..<Suc i + length fns]"
    by (simp add: upt_conv_Cons del: upt_Suc)
  show ?case
    unfolding upt by (simp add: Cons.IH aggregate_from_def del: upt_Suc split: prod.splits)
qed

lemma shutdown_eq:
  "shutdown ctx st =
     (aggregate (fst (invoke_all ctx (shutdownFuncs st) (world st))),
      st\<lparr>shutdownFuncs := [],
         world := snd (invoke_all ctx (shutdownFuncs st) (world st)),
         history := history st @ map (\<lambda>k. Call k ctx) [0..<length (shutdownFuncs st)] @ [Clear]\<rparr>)"
  by (simp add: shutdown_def range_loop_eq aggregate_def)

lemma length_invoke_all: "length (fst (invoke_all ctx fns w)) = length fns"
proof (induction fns arbitrary: w)
  case Nil
  show ?case by simp
next
  case (Cons fn fns)
  obtain r w' where fn: "fn ctx w = (r, w')" by (cases "fn ctx w")
  obtain rs w'' where rest: "invoke_all ctx fns w' = (rs, w'')" by (cases "invoke_all ctx fns w'")
  from Cons.IH [of w'] rest have "length rs = length fns" by simp
  with fn rest show ?case by simp
qed

section \<open>Joined errors\<close>

lemma Join_pair:
  "Join [None, None] = None"
  "Join [None, Some e] = Some (joinError [e])"
  "Join [Some a, None] = Some (joinError [a])"
  "Join [Some a, Some e] = Some (joinError [a, e])"
  by (simp_all add: Join_def)

lemma aggregate_from_snoc: "aggregate_from err (rs @ [r]) = Join [aggregate_from err rs, r]"
  by (simp add: aggregate_from_def)

lemma aggregate_from_Nil: "aggregate_from err [] = err"
  by (simp add: aggregate_from_def)

lemma Join_pair_None_iff: "Join [a, r] = None \<longleftrightarrow> a = None \<and> r = None"
  by (cases a; cases r) (simp_all add: Join_pair)

lemma aggregate_from_None_iff:
  "aggregate_from err rs = None \<longleftrightarrow> err = None \<and> (\<forall>r \<in> set rs. r = None)"
  by (induction rs rule: rev_induct)
    (auto simp: aggregate_from_Nil aggregate_from_snoc Join_pair_None_iff)

lemma is_err_refl: "is_err e e"
  by (cases e) simp_all

lemma Is_Join_pair:
  "Is (Join [a, r]) (Some t) \<longleftrightarrow>
     Join [a, r] = Some t \<or> Is a (Some t) \<or> Is r (Some t)"
  by (cases a; cases r) (auto simp: Join_pair Is_def)

lemma Join_pair_not_Err: "Join [a, r] \<noteq> Some (Err x)"
  by (cases a; cases r) (simp_all add: Join_pair)

lemma Is_aggregate_from:
  "Is (aggregate_from err rs) (Some t) \<longleftrightarrow>
     Is err (Some t) \<or> (\<exists>r \<in> set rs. Is r (Some t)) \<or>
     (\<exists>k. 0 < k \<and> k \<le> length rs \<and> aggregate_from err (take k rs) = Some t)"
proof (induction rs rule: rev_induct)
  case Nil
  show ?case by (simp add: aggregate_from_Nil)
next
  case (snoc r rs)
  have new: "(\<exists>k. 0 < k \<and> k \<le> length (rs @ [r]) \<and>
                aggregate_from err (take k (rs @ [r])) = Some t) \<longleftrightarrow>
        (\<exists>k. 0 < k \<and> k \<le> length rs \<and> aggregate_from err (take k rs) = Some t) \<or>
        Join [aggregate_from err rs, r] = Some t" (is "?L \<longleftrightarrow> ?A \<or> ?B")
  proof
    assume ?L
    then obtain k where k: "0 < k" "k \<le> Suc (length rs)"
        "aggregate_from err (take k (rs @ [r])) = Some t"
      by auto
    show "?A \<or> ?B"
    proof (cases "k \<le> length rs")
      case True
      with k show ?thesis by auto
    next
      case False
      with k have "k = Suc (length rs)" by simp
      with k show ?thesis by (simp add: aggregate_from_snoc)
    qed
  next
    assume "?A \<or> ?B"
    then show ?L
    proof
      assume ?A
      then obtain k where "0 < k" "k \<le> length rs" "aggregate_from err (take k rs) = Some t"
        by auto
      then show ?L by (intro exI [of _ k]) simp
    next
      assume ?B
      then show ?L by (intro exI [of _ "Suc (length rs)"]) (simp add: aggregate_from_snoc)
    qed
  qed
  show ?case
    unfolding new aggregate_from_snoc Is_Join_pair snoc.IH by auto
qed

lemma aggregate_from_not_Err:
  "0 < k \<Longrightarrow> k \<le> length rs \<Longrightarrow> aggregate_from err (take k rs) \<noteq> Some (Err x)"
proof -
  assume k: "0 < k" "k \<le> length rs"
  then have "take k rs \<noteq> []" by auto
  then obtain ys y where "take k rs = ys @ [y]" by (metis rev_exhaust)
  then show ?thesis by (simp add: aggregate_from_snoc Join_pair_not_Err)
qed

section \<open>Counting calls\<close>

lemma count_list_calls:
  "count_list (map (\<lambda>k. Call k ctx) [0..<n]) (Call k ctx) = (if k < n then 1 else 0)"
  by (induction n) auto

lemma invoke_all_logging:
  "invoke_all ctx (map (\<lambda>k. logging_op k (res k)) ks) w = (map (\<lambda>k. res k ctx) ks, w @ ks)"
  by (induction ks arbitrary: w) (simp_all add: logging_op_def)

section \<open>The four ways through setupOTelSDK\<close>

lemma setup_cases [case_names traces metrics logs ok]:
  obtains
    (traces) e where "newTracerProvider lib ctx = Inl e"
  | (metrics) tp e where "newTracerProvider lib ctx = Inr tp" "newMeterProvider lib ctx = Inl e"
  | (logs) tp mp e where "newTracerProvider lib ctx = Inr tp" "newMeterProvider lib ctx = Inr mp"
      "newLoggerProvider lib ctx = Inl e"
  | (ok) tp mp lp where "newTracerProvider lib ctx = Inr tp" "newMeterProvider lib ctx = Inr mp"
      "newLoggerProvider lib ctx = Inr lp"
  by (cases "newTracerProvider lib ctx"; cases "newMeterProvider lib ctx";
      cases "newLoggerProvider lib ctx") auto

lemmas setup_steps =
  SetTextMapPropagator_def SetTracerProvider_def SetMeterProvider_def SetLoggerProvider_def
  append_func_def log_event_def handleErr_def

lemma setup_traces:
  assumes "newTracerProvider lib ctx = Inl e"
  shows "setupOTelSDK lib ctx st0 =
    ((Some shutdown, Join [Some e, aggregate []]),
     st0\<lparr>shutdownFuncs := [], TextMapPropagator := Some newPropagator,
        history := history st0 @ [SetPropagator, Construct Traces, Clear]\<rparr>)"
  using assms by (simp add: setupOTelSDK_def setup_steps shutdown_eq)

lemma setup_metrics:
  assumes "newTracerProvider lib ctx = Inr tp" "newMeterProvider lib ctx = Inl e"
  shows "setupOTelSDK lib ctx st0 =
    ((Some shutdown, Join [Some e, aggregate (fst (invoke_all ctx [Shutdown tp] (world st0)))]),
     st0\<lparr>shutdownFuncs := [], TextMapPropagator := Some newPropagator,
        TracerProvider := Some tp,
        world := snd (invoke_all ctx [Shutdown tp] (world st0)),
        history := history st0 @
          [SetPropagator, Construct Traces, Append Traces, SetProvider Traces,
           Construct Metrics, Call 0 ctx, Clear]\<rparr>)"
  using assms by (simp add: setupOTelSDK_def setup_steps shutdown_eq)

lemma setup_logs:
  assumes "newTracerProvider lib ctx = Inr tp" "newMeterProvider lib ctx = Inr mp"
    "newLoggerProvider lib ctx = Inl e"
  shows "setupOTelSDK lib ctx st0 =
    ((Some shutdown,
      Join [Some e, aggregate (fst (invoke_all ctx [Shutdown tp, Shutdown mp] (world st0)))]),
     st0\<lparr>shutdownFuncs := [], TextMapPropagator := Some newPropagator,
        TracerProvider := Some tp, MeterProvider := Some mp,
        world := snd (invoke_all ctx [Shutdown tp, Shutdown mp] (world st0)),
        history := history st0 @
          [SetPropagator, Construct Traces, Append Traces, SetProvider Traces,
           Construct Metrics, Append Metrics, SetProvider Metrics,
           Construct Logs, Call 0 ctx, Call 1 ctx, Clear]\<rparr>)"
  using assms by (simp add: setupOTelSDK_def setup_steps shutdown_eq)

lemma setup_ok:
  assumes "newTracerProvider lib ctx = Inr tp" "newMeterProvider lib ctx = Inr mp"
    "newLoggerProvider lib ctx = Inr lp"
  shows "setupOTelSDK lib ctx st0 =
    ((Some shutdown, None),
     st0\<lparr>shutdownFuncs := [Shutdown tp, Shutdown mp, Shutdown lp],
        TextMapPropagator := Some newPropagator,
        TracerProvider := Some tp, MeterProvider := Some mp, LoggerProvider := Some lp,
        history := history st0 @
          [SetPropagator, Construct Traces, Append Traces, SetProvider Traces,
           Construct Metrics, Append Metrics, SetProvider Metrics,
           Construct Logs, Append Logs, SetProvider Logs]\<rparr>)"
  using assms by (simp add: setupOTelSDK_def setup_steps)

section \<open>Evaluating the tests\<close>

lemmas test_defs =
  test_lib_def test_exporter_def registry_state_def logging_op_def
  newTracerProvider_def newMeterProvider_def newLoggerProvider_def

section \<open>Calls after the setup\<close>

lemma fold_shutdown_drained:
  "shutdownFuncs st = [] \<Longrightarrow>
     fold (\<lambda>c s. snd (shutdown c s)) cs st =
       st\<lparr>history := history st @ replicate (length cs) Clear\<rparr>"
proof (induction cs arbitrary: st)
  case Nil
  show ?case by simp
next
  case (Cons c cs)
  let ?st1 = "st\<lparr>history := history st @ [Clear]\<rparr>"
  have one: "snd (shutdown c st) = ?st1"
    using Cons.prems by (simp add: shutdown_def)
  have "shutdownFuncs ?st1 = []"
    using Cons.prems by simp
  from Cons.IH [OF this] show ?case
    by (simp add: one replicate_app_Cons_same)
qed

lemma fold_shutdown:
  "fold (\<lambda>c s. snd (shutdown c s)) (c # cs) st =
     st\<lparr>shutdownFuncs := [],
        world := snd (invoke_all c (shutdownFuncs st) (world st)),
        history := history st @ map (\<lambda>k. Call k c) [0..<length (shutdownFuncs st)] @
          replicate (Suc (length cs)) Clear\<rparr>"
proof -
  let ?st1 = "snd (shutdown c st)"
  have "shutdownFuncs ?st1 = []"
    by (simp add: shutdown_eq)
  from fold_shutdown_drained [OF this, of cs] show ?thesis
    by (simp add: shutdown_eq replicate_app_Cons_same)
qed

lemma only_Clear_after:
  "x \<notin> set xs \<Longrightarrow> xs @ replicate m x = pre @ x # post \<Longrightarrow> set post \<subseteq> {x}"
proof (induction xs arbitrary: pre)
  case Nil
  then have "set (pre @ x # post) \<subseteq> {x}"
    by (metis append_Nil set_replicate_conv_if empty_subsetI subset_refl)
  then show ?case by auto
next
  case (Cons y ys)
  from Cons.prems obtain pre' where "pre = y # pre'"
    by (cases pre) auto
  with Cons.prems Cons.IH [of pre'] show ?case by auto
qed

lemma lifetime_eq:
  "lifetime lib ctx cs st0 =
     fold (\<lambda>c s. snd (shutdown c s)) cs (snd (setupOTelSDK lib ctx st0))"
  by (cases rule: setup_cases [of lib ctx])
    (simp_all add: lifetime_def setup_traces setup_metrics setup_logs setup_ok)

lemma lifetime_history:
  "\<exists>xs m. new_events st0 (lifetime lib ctx cs st0) = xs @ replicate m Clear \<and>
     Clear \<notin> set xs \<and>
     (0 < m \<longleftrightarrow> construction_error lib ctx \<noteq> None \<or> cs \<noteq> []) \<and>
     (0 < m \<longrightarrow> shutdownFuncs (lifetime lib ctx cs st0) = []) \<and>
     filter is_append xs = map Append (take (length (constructed lib ctx)) [Traces, Metrics, Logs]) \<and>
     TextMapPropagator (lifetime lib ctx cs st0) = Some newPropagator"
proof (cases rule: setup_cases [of lib ctx])
  case (traces e)
  show ?thesis
    by (intro exI [of _ "[SetPropagator, Construct Traces]"] exI [of _ "Suc (length cs)"])
      (simp add: lifetime_eq setup_traces [OF traces] fold_shutdown_drained new_events_def
        construction_error_def constructed_def traces)
next
  case (metrics tp e)
  show ?thesis
    by (intro exI [of _ "[SetPropagator, Construct Traces, Append Traces, SetProvider Traces,
           Construct Metrics, Call 0 ctx]"] exI [of _ "Suc (length cs)"])
      (simp add: lifetime_eq setup_metrics [OF metrics] fold_shutdown_drained new_events_def
        construction_error_def constructed_def metrics)
next
  case (logs tp mp e)
  show ?thesis
    by (intro exI [of _ "[SetPropagator, Construct Traces, Append Traces, SetProvider Traces,
           Construct Metrics, Append Metrics, SetProvider Metrics,
           Construct Logs, Call 0 ctx, Call 1 ctx]"] exI [of _ "Suc (length cs)"])
      (simp add: lifetime_eq setup_logs [OF logs] fold_shutdown_drained new_events_def
        construction_error_def constructed_def logs)
next
  case (ok tp mp lp)
  show ?thesis
  proof (cases cs)
    case Nil
    show ?thesis
      by (intro exI [of _ "SetPropagator # construction_steps"] exI [of _ 0])
        (simp add: lifetime_eq setup_ok [OF ok] Nil new_events_def construction_error_def ok
          constructed_def construction_steps_def)
  next
    case (Cons c cs')
    show ?thesis
      by (intro exI [of _ "SetPropagator # construction_steps @ [Call 0 c, Call 1 c, Call 2 c]"]
          exI [of _ "Suc (length cs')"])
        (simp add: lifetime_eq setup_ok [OF ok] Cons fold_shutdown new_events_def
          construction_error_def constructed_def ok construction_steps_def del: fold.simps)
  qed
qed

section \<open>Properties of shutdown\<close>

text \<open>
  Claim C2. Whatever operations are registered and whatever context shutdown is given,
  canceled or not, the operation at every position of the registry is called with that
  context, whatever the operations before it returned: there are as many results as
  registered operations, and the outside is left as calling all of them leaves it.
\<close>

theorem shutdown_no_short_circuit:
  "k < length (shutdownFuncs st) \<Longrightarrow>
     Call k ctx \<in> set (new_events st (snd (shutdown ctx st))) \<and>
     length (results ctx st) = length (shutdownFuncs st) \<and>
     world (snd (shutdown ctx st)) = snd (invoke_all ctx (shutdownFuncs st) (world st))"
  by (simp add: new_events_def results_def length_invoke_all shutdown_eq)

theorem shutdown_no_short_circuit_witness:
  "2 < length (shutdownFuncs (registry_state disk_full_ops [])) \<and>
   results (Ctx 7 True) (registry_state disk_full_ops []) =
     [None, Some (Err ''disk full''), Some (Err ''context canceled'')] \<and>
   Call 2 (Ctx 7 True) \<in> set (new_events (registry_state disk_full_ops [])
      (snd (shutdown (Ctx 7 True) (registry_state disk_full_ops [])))) \<and>
   world (snd (shutdown (Ctx 7 True) (registry_state disk_full_ops []))) = [0, 1, 2]"
  using shutdown_no_short_circuit [of 2 "registry_state disk_full_ops []" "Ctx 7 True"]
  by (simp add: registry_state_def disk_full_ops_def results_def logging_op_def)

text \<open>
  Claim C3. The value shutdown returns is the results of the registered operations joined
  one after the other. It is nil exactly when no operation failed. Every error an
  operation returned is found in it by \<^verbatim>\<open>errors.Is\<close>. An error of another package
  is found in it only if it is found in the error of some operation that failed, and any
  error found in it is found in the error of an operation that failed or is one of the
  joined errors shutdown built itself.
\<close>

theorem shutdown_aggregates_failures:
  "fst (shutdown ctx st) = aggregate (results ctx st) \<and>
   (fst (shutdown ctx st) = None \<longleftrightarrow> (\<forall>r \<in> set (results ctx st). r = None)) \<and>
   (\<forall>e. Some e \<in> set (results ctx st) \<longrightarrow> Is (fst (shutdown ctx st)) (Some e)) \<and>
   (\<forall>x. Is (fst (shutdown ctx st)) (Some (Err x)) \<longleftrightarrow>
        (\<exists>e. Some e \<in> set (results ctx st) \<and> is_err e (Err x))) \<and>
   (\<forall>t. Is (fst (shutdown ctx st)) (Some t) \<longrightarrow>
        (\<exists>e. Some e \<in> set (results ctx st) \<and> is_err e t) \<or>
        (\<exists>k. 0 < k \<and> k \<le> length (results ctx st) \<and> aggregate (take k (results ctx st)) = Some t))"
proof -
  let ?rs = "results ctx st"
  have ret: "fst (shutdown ctx st) = aggregate ?rs"
    by (simp add: shutdown_eq results_def)
  have nil: "aggregate ?rs = None \<longleftrightarrow> (\<forall>r \<in> set ?rs. r = None)"
    by (simp add: aggregate_def aggregate_from_None_iff)
  have Is_Some: "Is r (Some t) \<longleftrightarrow> (\<exists>e. r = Some e \<and> is_err e t)" for r t
    by (cases r) (simp_all add: Is_def)
  have found: "Is (aggregate ?rs) (Some t) \<longleftrightarrow>
      (\<exists>e. Some e \<in> set ?rs \<and> is_err e t) \<or>
      (\<exists>k. 0 < k \<and> k \<le> length ?rs \<and> aggregate (take k ?rs) = Some t)" for t
    unfolding aggregate_def Is_aggregate_from [of None ?rs t]
    by (auto simp: Is_Some)
  have each: "Is (aggregate ?rs) (Some e)" if "Some e \<in> set ?rs" for e
    using that is_err_refl [of e] by (auto simp: found)
  have leaf: "Is (aggregate ?rs) (Some (Err x)) \<longleftrightarrow>
      (\<exists>e. Some e \<in> set ?rs \<and> is_err e (Err x))" for x
  proof -
    have "aggregate (take k ?rs) \<noteq> Some (Err x)" if "0 < k" "k \<le> length ?rs" for k
      using that aggregate_from_not_Err [of k ?rs None x] by (simp add: aggregate_def)
    with found [of "Err x"] show ?thesis by blast
  qed
  show ?thesis
    unfolding ret using nil each leaf found by blast
qed

theorem shutdown_aggregates_failures_witness:
  "fst (shutdown (Ctx 1 False) (registry_state disk_full_ops [])) =
     Some (joinError [joinError [Err ''disk full'']]) \<and>
   results (Ctx 1 False) (registry_state disk_full_ops []) = [None, Some (Err ''disk full''), None] \<and>
   Is (fst (shutdown (Ctx 1 False) (registry_state disk_full_ops []))) (Some (Err ''disk full'')) \<and>
   \<not> Is (fst (shutdown (Ctx 1 False) (registry_state disk_full_ops [])))
        (Some (Err ''context canceled''))"
  using shutdown_aggregates_failures [of "Ctx 1 False" "registry_state disk_full_ops []"]
  by (simp add: registry_state_def disk_full_ops_def results_def logging_op_def
      aggregate_def aggregate_from_def Join_def Is_def)

text \<open>
  Claim C4. A first call of shutdown calls the operation at each position of the registry
  exactly once and returns the results joined; a second call, with any context, on the
  state the first one left calls nothing, leaves the outside as it is and returns nil.
\<close>

theorem shutdown_twice:
  "fst (shutdown ctx st) = aggregate (results ctx st) \<and>
   (\<forall>k. count_list (new_events st (snd (shutdown ctx st))) (Call k ctx) =
        (if k < length (shutdownFuncs st) then 1 else 0)) \<and>
   shutdown ctx' (snd (shutdown ctx st)) =
     (None, (snd (shutdown ctx st))\<lparr>history := history (snd (shutdown ctx st)) @ [Clear]\<rparr>) \<and>
   new_events (snd (shutdown ctx st)) (snd (shutdown ctx' (snd (shutdown ctx st)))) = [Clear] \<and>
   world (snd (shutdown ctx' (snd (shutdown ctx st)))) = world (snd (shutdown ctx st))"
proof -
  obtain err st1 where first: "shutdown ctx st = (err, st1)"
    by (cases "shutdown ctx st")
  have st1: "st1 = st\<lparr>shutdownFuncs := [],
         world := snd (invoke_all ctx (shutdownFuncs st) (world st)),
         history := history st @ map (\<lambda>k. Call k ctx) [0..<length (shutdownFuncs st)] @ [Clear]\<rparr>"
    and err: "err = aggregate (results ctx st)"
    using first by (simp_all add: shutdown_eq results_def)
  have empty: "shutdownFuncs st1 = []"
    by (simp add: st1)
  have second: "shutdown ctx' st1 = (None, st1\<lparr>history := history st1 @ [Clear]\<rparr>)"
    by (simp add: shutdown_def empty)
  have once: "count_list (new_events st st1) (Call k ctx) =
      (if k < length (shutdownFuncs st) then 1 else 0)" for k
    by (simp add: new_events_def st1 count_list_calls)
  show ?thesis
    unfolding first using err once second by (simp add: new_events_def)
qed

theorem shutdown_twice_witness:
  "fst (shutdown (Ctx 1 False) (registry_state disk_full_ops [])) =
     Some (joinError [joinError [Err ''disk full'']]) \<and>
   world (snd (shutdown (Ctx 1 False) (registry_state disk_full_ops []))) = [0, 1, 2] \<and>
   fst (shutdown (Ctx 2 False) (snd (shutdown (Ctx 1 False) (registry_state disk_full_ops [])))) = None \<and>
   world (snd (shutdown (Ctx 2 False) (snd (shutdown (Ctx 1 False) (registry_state disk_full_ops []))))) =
     [0, 1, 2]"
  using shutdown_twice [of "Ctx 1 False" "registry_state disk_full_ops []" "Ctx 2 False"]
  by (simp add: registry_state_def disk_full_ops_def results_def logging_op_def
      aggregate_def aggregate_from_def Join_def shutdown_def)

text \<open>
  Claim C5. One call of shutdown calls the registered operations by ascending position,
  the first registered first: an operation is registered at the end of the registry, the
  calls are those of positions 0, 1, ... in this order, followed by the clearing, and
  operations that append their index to a shared log leave the indices in ascending order
  behind what the log held.
\<close>

theorem shutdown_registration_order:
  "shutdownFuncs (append_func sig f st) = shutdownFuncs st @ [f] \<and>
   new_events st (snd (shutdown ctx st)) =
     map (\<lambda>k. Call k ctx) [0..<length (shutdownFuncs st)] @ [Clear] \<and>
   (fst (shutdown ctx st), world (snd (shutdown ctx st))) =
     (aggregate (fst (invoke_all ctx (shutdownFuncs st) (world st))),
      snd (invoke_all ctx (shutdownFuncs st) (world st))) \<and>
   world (snd (shutdown ctx (registry_state (map (\<lambda>k. logging_op k (res k)) [0..<n]) log))) =
     log @ [0..<n]"
  by (simp add: append_func_def log_event_def new_events_def shutdown_eq registry_state_def
      invoke_all_logging)

theorem shutdown_registration_order_witness:
  "new_events (registry_state disk_full_ops []) (snd (shutdown (Ctx 7 True) (registry_state disk_full_ops []))) =
     [Call 0 (Ctx 7 True), Call 1 (Ctx 7 True), Call 2 (Ctx 7 True), Clear] \<and>
   world (snd (shutdown (Ctx 7 True) (registry_state disk_full_ops []))) = [0, 1, 2]"
  using shutdown_registration_order [of Traces "\<lambda>ctx w. (None, w)" "registry_state disk_full_ops []"
      "Ctx 7 True" "\<lambda>k ctx. None" 0 "[]"]
  by (simp add: registry_state_def disk_full_ops_def logging_op_def shutdown_def new_events_def)

section \<open>Properties of setupOTelSDK\<close>

text \<open>
  Claim C1. When a constructor fails, after the constructors before it succeeded, the
  Shutdown methods of the providers constructed so far are called, each once, in their
  order and with the context of the setup, and the error the setup returns is the
  constructor's error joined with what joining the results of these calls gives.
  The registry is empty afterwards.
\<close>

theorem setup_failure_rollback:
  assumes "construction_error lib ctx = Some e"
  shows "snd (fst (setupOTelSDK lib ctx st0)) =
      Join [Some e,
        aggregate (fst (invoke_all ctx (map Shutdown (constructed lib ctx)) (world st0)))] \<and>
    world (snd (setupOTelSDK lib ctx st0)) =
      snd (invoke_all ctx (map Shutdown (constructed lib ctx)) (world st0)) \<and>
    filter is_call (new_events st0 (snd (setupOTelSDK lib ctx st0))) =
      map (\<lambda>k. Call k ctx) [0..<length (constructed lib ctx)] \<and>
    shutdownFuncs (snd (setupOTelSDK lib ctx st0)) = []"
proof (cases rule: setup_cases [of lib ctx])
  case (traces e')
  with assms show ?thesis
    by (simp add: setup_traces constructed_def construction_error_def new_events_def)
next
  case (metrics tp e')
  with assms show ?thesis
    by (simp add: setup_metrics constructed_def construction_error_def new_events_def)
next
  case (logs tp mp e')
  with assms show ?thesis
    by (simp add: setup_logs constructed_def construction_error_def new_events_def)
next
  case (ok tp mp lp)
  with assms show ?thesis
    by (simp add: construction_error_def)
qed

theorem setup_failure_rollback_witness:
  "construction_error (test_lib None (Some (Err ''no reader'')) None) (Ctx 3 False) =
     Some (Err ''no reader'') \<and>
   snd (fst (setupOTelSDK (test_lib None (Some (Err ''no reader'')) None) (Ctx 3 False)
        (registry_state [] []))) =
     Some (joinError [Err ''no reader'', joinError [Err ''flush failed'']]) \<and>
   world (snd (setupOTelSDK (test_lib None (Some (Err ''no reader'')) None) (Ctx 3 False)
        (registry_state [] []))) = [0]"
  using setup_failure_rollback [of "test_lib None (Some (Err ''no reader'')) None" "Ctx 3 False"
      "Err ''no reader''" "registry_state [] []"]
  by (simp add: test_defs construction_error_def constructed_def aggregate_def aggregate_from_def
      Join_def)

text \<open>
  Claim C7. The setup takes its steps in one fixed order: the tracer provider is
  constructed, its Shutdown registered and the provider published, then the same for the
  meter provider, then for the logger provider. On the state this shows where a
  constructor fails. If the tracer constructor fails, nothing was registered or published:
  no Shutdown is called, the three globals are as before, and the meter and logger
  constructors have no part in the outcome. If the meter constructor fails, the tracer
  provider is already published and its Shutdown already registered, so that the rollback
  calls it, and it alone; the meter and logger globals are as before and the logger
  constructor has no part. If the logger constructor fails, the tracer and meter providers
  are published and the rollback calls their Shutdown, the tracer's first; the logger
  global is as before. If none fails, the registry holds the three Shutdown methods in
  the order tracer, meter, logger, the three providers are published, nothing was called.
  The steps recorded in the history are those of the fixed order up to the first
  constructor that fails, its call included.
\<close>

theorem setup_step_order:
  "(newTracerProvider lib ctx = Inl e \<longrightarrow>
      snd (fst (setupOTelSDK lib ctx st0)) = Join [Some e, None] \<and>
      shutdownFuncs (snd (setupOTelSDK lib ctx st0)) = [] \<and>
      world (snd (setupOTelSDK lib ctx st0)) = world st0 \<and>
      TracerProvider (snd (setupOTelSDK lib ctx st0)) = TracerProvider st0 \<and>
      MeterProvider (snd (setupOTelSDK lib ctx st0)) = MeterProvider st0 \<and>
      LoggerProvider (snd (setupOTelSDK lib ctx st0)) = LoggerProvider st0 \<and>
      setupOTelSDK (lib\<lparr>NewMetricReader := mr, NewLogExporter := le\<rparr>) ctx st0 =
        setupOTelSDK lib ctx st0) \<and>
   (newTracerProvider lib ctx = Inr tp \<and> newMeterProvider lib ctx = Inl e \<longrightarrow>
      snd (fst (setupOTelSDK lib ctx st0)) =
        Join [Some e, Join [None, fst (Shutdown tp ctx (world st0))]] \<and>
      shutdownFuncs (snd (setupOTelSDK lib ctx st0)) = [] \<and>
      world (snd (setupOTelSDK lib ctx st0)) = snd (Shutdown tp ctx (world st0)) \<and>
      TracerProvider (snd (setupOTelSDK lib ctx st0)) = Some tp \<and>
      MeterProvider (snd (setupOTelSDK lib ctx st0)) = MeterProvider st0 \<and>
      LoggerProvider (snd (setupOTelSDK lib ctx st0)) = LoggerProvider st0 \<and>
      setupOTelSDK (lib\<lparr>NewLogExporter := le\<rparr>) ctx st0 = setupOTelSDK lib ctx st0) \<and>
   (newTracerProvider lib ctx = Inr tp \<and> newMeterProvider lib ctx = Inr mp \<and>
    newLoggerProvider lib ctx = Inl e \<longrightarrow>
      snd (fst (setupOTelSDK lib ctx st0)) =
        Join [Some e, aggregate (fst (invoke_all ctx [Shutdown tp, Shutdown mp] (world st0)))] \<and>
      shutdownFuncs (snd (setupOTelSDK lib ctx st0)) = [] \<and>
      world (snd (setupOTelSDK lib ctx st0)) =
        snd (Shutdown mp ctx (snd (Shutdown tp ctx (world st0)))) \<and>
      TracerProvider (snd (setupOTelSDK lib ctx st0)) = Some tp \<and>
      MeterProvider (snd (setupOTelSDK lib ctx st0)) = Some mp \<and>
      LoggerProvider (snd (setupOTelSDK lib ctx st0)) = LoggerProvider st0) \<and>
   (newTracerProvider lib ctx = Inr tp \<and> newMeterProvider lib ctx = Inr mp \<and>
    newLoggerProvider lib ctx = Inr lp \<longrightarrow>
      snd (fst (setupOTelSDK lib ctx st0)) = None \<and>
      shutdownFuncs (snd (setupOTelSDK lib ctx st0)) = [Shutdown tp, Shutdown mp, Shutdown lp] \<and>
      world (snd (setupOTelSDK lib ctx st0)) = world st0 \<and>
      TracerProvider (snd (setupOTelSDK lib ctx st0)) = Some tp \<and>
      MeterProvider (snd (setupOTelSDK lib ctx st0)) = Some mp \<and>
      LoggerProvider (snd (setupOTelSDK lib ctx st0)) = Some lp) \<and>
   filter is_step (new_events st0 (snd (setupOTelSDK lib ctx st0))) =
     take (3 * length (constructed lib ctx) +
            (case construction_error lib ctx of None \<Rightarrow> 0 | Some e \<Rightarrow> 1))
       [Construct Traces, Append Traces, SetProvider Traces,
        Construct Metrics, Append Metrics, SetProvider Metrics,
        Construct Logs, Append Logs, SetProvider Logs] \<and>
   precedes (Construct Traces) (Construct Metrics) (new_events st0 (snd (setupOTelSDK lib ctx st0))) \<and>
   precedes (Append Traces) (Construct Metrics) (new_events st0 (snd (setupOTelSDK lib ctx st0))) \<and>
   precedes (SetProvider Traces) (Construct Metrics) (new_events st0 (snd (setupOTelSDK lib ctx st0))) \<and>
   precedes (Construct Metrics) (Construct Logs) (new_events st0 (snd (setupOTelSDK lib ctx st0))) \<and>
   precedes (Append Metrics) (Construct Logs) (new_events st0 (snd (setupOTelSDK lib ctx st0))) \<and>
   precedes (SetProvider Metrics) (Construct Logs) (new_events st0 (snd (setupOTelSDK lib ctx st0)))"
proof -
  have tracer_only: "newTracerProvider (lib\<lparr>NewMetricReader := mr, NewLogExporter := le\<rparr>) ctx =
      newTracerProvider lib ctx"
    by (simp add: newTracerProvider_def split: sum.splits)
  have tracer_kept: "newTracerProvider (lib\<lparr>NewLogExporter := le\<rparr>) ctx = newTracerProvider lib ctx"
    by (simp add: newTracerProvider_def split: sum.splits)
  have meter_kept: "newMeterProvider (lib\<lparr>NewLogExporter := le\<rparr>) ctx = newMeterProvider lib ctx"
    by (simp add: newMeterProvider_def split: sum.splits)
  show ?thesis
  proof (cases rule: setup_cases [of lib ctx])
    case (traces e')
    have other: "setupOTelSDK (lib\<lparr>NewMetricReader := mr, NewLogExporter := le\<rparr>) ctx st0 =
        setupOTelSDK lib ctx st0"
      using traces tracer_only by (simp add: setup_traces)
    from traces other show ?thesis
      by (simp add: setup_traces constructed_def construction_error_def new_events_def
          aggregate_def aggregate_from_def)
  next
    case (metrics tp' e')
    have other: "setupOTelSDK (lib\<lparr>NewLogExporter := le\<rparr>) ctx st0 = setupOTelSDK lib ctx st0"
      using metrics tracer_kept meter_kept by (simp add: setup_metrics)
    from metrics other show ?thesis
      by (simp add: setup_metrics constructed_def construction_error_def new_events_def
          aggregate_def aggregate_from_def split: prod.splits)
  next
    case (logs tp' mp' e')
    then show ?thesis
      by (simp add: setup_logs constructed_def construction_error_def new_events_def
          split: prod.splits)
  next
    case (ok tp' mp' lp')
    then show ?thesis
      by (simp add: setup_ok constructed_def construction_error_def new_events_def)
  qed
qed

theorem setup_step_order_witness:
  "newTracerProvider (test_lib None (Some (Err ''no reader'')) None) (Ctx 3 False) =
     Inr \<lparr>Shutdown = logging_op 0 (\<lambda>ctx. Some (Err ''flush failed''))\<rparr> \<and>
   newMeterProvider (test_lib None (Some (Err ''no reader'')) None) (Ctx 3 False) =
     Inl (Err ''no reader'') \<and>
   world (snd (setupOTelSDK (test_lib None (Some (Err ''no reader'')) None) (Ctx 3 False)
      (registry_state [] []))) = [0] \<and>
   TracerProvider (snd (setupOTelSDK (test_lib None (Some (Err ''no reader'')) None) (Ctx 3 False)
      (registry_state [] []))) =
     Some \<lparr>Shutdown = logging_op 0 (\<lambda>ctx. Some (Err ''flush failed''))\<rparr> \<and>
   MeterProvider (snd (setupOTelSDK (test_lib None (Some (Err ''no reader'')) None) (Ctx 3 False)
      (registry_state [] []))) = None \<and>
   snd (fst (setupOTelSDK (test_lib None (Some (Err ''no reader'')) None) (Ctx 3 False)
      (registry_state [] []))) =
     Some (joinError [Err ''no reader'', joinError [Err ''flush failed'']]) \<and>
   newLoggerProvider (test_lib None None (Some (Err ''no exporter''))) (Ctx 3 False) =
     Inl (Err ''no exporter'') \<and>
   world (snd (setupOTelSDK (test_lib None None (Some (Err ''no exporter''))) (Ctx 3 False)
      (registry_state [] []))) = [0, 1] \<and>
   LoggerProvider (snd (setupOTelSDK (test_lib None None (Some (Err ''no exporter''))) (Ctx 3 False)
      (registry_state [] []))) = None"
proof -
  let ?lib = "test_lib None (Some (Err ''no reader'')) None"
  let ?lib' = "test_lib None None (Some (Err ''no exporter''))"
  let ?tp = "\<lparr>Shutdown = logging_op 0 (\<lambda>ctx. Some (Err ''flush failed''))\<rparr>"
  let ?mp = "\<lparr>Shutdown = logging_op 1
      (\<lambda>ctx. if canceled ctx then Some (Err ''context canceled'') else None)\<rparr>"
  have tracer: "newTracerProvider ?lib (Ctx 3 False) = Inr ?tp"
    by (simp add: test_defs)
  have meter: "newMeterProvider ?lib (Ctx 3 False) = Inl (Err ''no reader'')"
    by (simp add: test_defs)
  have tracer': "newTracerProvider ?lib' (Ctx 3 False) = Inr ?tp"
    by (simp add: test_defs)
  have meter': "newMeterProvider ?lib' (Ctx 3 False) = Inr ?mp"
    by (simp add: test_defs)
  have logger': "newLoggerProvider ?lib' (Ctx 3 False) = Inl (Err ''no exporter'')"
    by (simp add: test_defs)
  from
    setup_step_order [of ?lib "Ctx 3 False" "Err ''no reader''" "registry_state [] []"
      "NewMetricReader ?lib" "NewLogExporter ?lib" ?tp ?mp ?mp]
    setup_step_order [of ?lib' "Ctx 3 False" "Err ''no exporter''" "registry_state [] []"
      "NewMetricReader ?lib'" "NewLogExporter ?lib'" ?tp ?mp ?mp]
    tracer meter tracer' meter' logger'
  show ?thesis
    by (simp add: registry_state_def logging_op_def Join_def)
qed

text \<open>
  Claim C8. For each signal, the provider's Shutdown is appended to the registry before
  the provider is published: a publication is preceded by the registration, comes before
  any clearing of the registry, and publishes the provider the constructor returned. If
  the constructor of a signal fails, nothing is registered and nothing is published for
  that signal, and its global is left as it was. When no constructor fails, the registry
  holds the Shutdown of every published provider.
\<close>

theorem teardown_registered_before_published:
  "precedes (Append s) (SetProvider s) (new_events st0 (snd (setupOTelSDK lib ctx st0))) \<and>
   (SetProvider s \<in> set (new_events st0 (snd (setupOTelSDK lib ctx st0))) \<longrightarrow>
      Append s \<in> set (new_events st0 (snd (setupOTelSDK lib ctx st0))) \<and>
      precedes (SetProvider s) Clear (new_events st0 (snd (setupOTelSDK lib ctx st0))) \<and>
      (\<exists>p. constructor s lib ctx = Inr p \<and>
           global_provider s (snd (setupOTelSDK lib ctx st0)) = Some p)) \<and>
   ((\<exists>e. constructor s lib ctx = Inl e) \<longrightarrow>
      Append s \<notin> set (new_events st0 (snd (setupOTelSDK lib ctx st0))) \<and>
      SetProvider s \<notin> set (new_events st0 (snd (setupOTelSDK lib ctx st0))) \<and>
      global_provider s (snd (setupOTelSDK lib ctx st0)) = global_provider s st0) \<and>
   (construction_error lib ctx = None \<longrightarrow>
      shutdownFuncs (snd (setupOTelSDK lib ctx st0)) = map Shutdown (constructed lib ctx) \<and>
      map (\<lambda>s. global_provider s (snd (setupOTelSDK lib ctx st0))) [Traces, Metrics, Logs] =
        map Some (constructed lib ctx))"
proof (cases rule: setup_cases [of lib ctx])
  case (traces e)
  then show ?thesis
    by (cases s) (simp_all add: setup_traces constructed_def construction_error_def new_events_def)
next
  case (metrics tp e)
  then show ?thesis
    by (cases s) (simp_all add: setup_metrics constructed_def construction_error_def new_events_def)
next
  case (logs tp mp e)
  then show ?thesis
    by (cases s) (simp_all add: setup_logs constructed_def construction_error_def new_events_def)
next
  case (ok tp mp lp)
  then show ?thesis
    by (cases s) (simp_all add: setup_ok constructed_def construction_error_def new_events_def)
qed

theorem teardown_registered_before_published_witness:
  "SetProvider Traces \<in> set (new_events (registry_state [] [])
      (snd (setupOTelSDK (test_lib None (Some (Err ''no reader'')) None) (Ctx 3 False)
        (registry_state [] [])))) \<and>
   Append Traces \<in> set (new_events (registry_state [] [])
      (snd (setupOTelSDK (test_lib None (Some (Err ''no reader'')) None) (Ctx 3 False)
        (registry_state [] [])))) \<and>
   constructor Metrics (test_lib None (Some (Err ''no reader'')) None) (Ctx 3 False) =
     Inl (Err ''no reader'') \<and>
   Append Metrics \<notin> set (new_events (registry_state [] [])
      (snd (setupOTelSDK (test_lib None (Some (Err ''no reader'')) None) (Ctx 3 False)
        (registry_state [] [])))) \<and>
   MeterProvider (snd (setupOTelSDK (test_lib None (Some (Err ''no reader'')) None) (Ctx 3 False)
        (registry_state [] []))) = None \<and>
   construction_error (test_lib None None None) (Ctx 3 False) = None \<and>
   length (shutdownFuncs (snd (setupOTelSDK (test_lib None None None) (Ctx 3 False)
        (registry_state [] [])))) = 3"
  using
    teardown_registered_before_published [of Traces "registry_state [] []"
      "test_lib None (Some (Err ''no reader'')) None" "Ctx 3 False"]
    teardown_registered_before_published [of Metrics "registry_state [] []"
      "test_lib None (Some (Err ''no reader'')) None" "Ctx 3 False"]
    teardown_registered_before_published [of Logs "registry_state [] []"
      "test_lib None None None" "Ctx 3 False"]
  by (simp add: test_defs construction_error_def constructed_def setupOTelSDK_def setup_steps
      shutdown_def new_events_def Join_def)

text \<open>
  Claim C9. The first step of the setup sets the global propagator, before any
  constructor is called. The registrations are those of the constructed providers, one
  for each and in their order, so none is for the propagator, and the registry holds
  Shutdown methods of constructed providers only. The global propagator is the one the
  setup made when the setup returns, on every path, and it still is after any calls of
  the returned shutdown function.
\<close>

theorem propagator_stays_set:
  "take 1 (new_events st0 (snd (setupOTelSDK lib ctx st0))) = [SetPropagator] \<and>
   precedes SetPropagator (Construct s) (new_events st0 (snd (setupOTelSDK lib ctx st0))) \<and>
   TextMapPropagator (snd (setupOTelSDK lib ctx st0)) = Some newPropagator \<and>
   TextMapPropagator (lifetime lib ctx cs st0) = Some newPropagator \<and>
   filter is_append (new_events st0 (lifetime lib ctx cs st0)) =
     map Append (take (length (constructed lib ctx)) [Traces, Metrics, Logs]) \<and>
   set (shutdownFuncs (snd (setupOTelSDK lib ctx st0))) \<subseteq> Shutdown ` set (constructed lib ctx)"
proof -
  have at_return: "take 1 (new_events st0 (snd (setupOTelSDK lib ctx st0))) = [SetPropagator] \<and>
      precedes SetPropagator (Construct s) (new_events st0 (snd (setupOTelSDK lib ctx st0))) \<and>
      TextMapPropagator (snd (setupOTelSDK lib ctx st0)) = Some newPropagator \<and>
      set (shutdownFuncs (snd (setupOTelSDK lib ctx st0))) \<subseteq> Shutdown ` set (constructed lib ctx)"
  proof (cases rule: setup_cases [of lib ctx])
    case (traces e)
    then show ?thesis by (simp add: setup_traces new_events_def)
  next
    case (metrics tp e)
    then show ?thesis by (simp add: setup_metrics new_events_def)
  next
    case (logs tp mp e)
    then show ?thesis by (simp add: setup_logs new_events_def)
  next
    case (ok tp mp lp)
    then show ?thesis by (simp add: setup_ok new_events_def constructed_def)
  qed
  from lifetime_history [of st0 lib ctx cs]
  obtain xs m where h: "new_events st0 (lifetime lib ctx cs st0) = xs @ replicate m Clear"
    and apps: "filter is_append xs =
        map Append (take (length (constructed lib ctx)) [Traces, Metrics, Logs])"
    and global: "TextMapPropagator (lifetime lib ctx cs st0) = Some newPropagator"
    by blast
  have "filter is_append (xs @ replicate m Clear) = filter is_append xs"
    by (induction m) (simp_all add: replicate_app_Cons_same [symmetric] del: replicate_Suc)
  with h apps have "filter is_append (new_events st0 (lifetime lib ctx cs st0)) =
      map Append (take (length (constructed lib ctx)) [Traces, Metrics, Logs])"
    by simp
  with at_return global show ?thesis by simp
qed

theorem propagator_stays_set_witness:
  "TextMapPropagator (snd (setupOTelSDK (test_lib (Some (Err ''no exporter'')) None None)
      (Ctx 3 False) (registry_state [] []))) =
     Some (CompositeTextMapPropagator [TraceContext, Baggage]) \<and>
   TextMapPropagator (lifetime (test_lib None None None) (Ctx 3 False) [Ctx 4 True, Ctx 5 False]
      (registry_state [] [])) =
     Some (CompositeTextMapPropagator [TraceContext, Baggage]) \<and>
   shutdownFuncs (snd (setupOTelSDK (test_lib (Some (Err ''no exporter'')) None None)
      (Ctx 3 False) (registry_state [] []))) = []"
  using
    propagator_stays_set [of "registry_state [] []" "test_lib (Some (Err ''no exporter'')) None None"
      "Ctx 3 False" Traces "[]"]
    propagator_stays_set [of "registry_state [] []" "test_lib None None None"
      "Ctx 3 False" Traces "[Ctx 4 True, Ctx 5 False]"]
  by (simp add: test_defs constructed_def newPropagator_def)

text \<open>
  Claim C10. When the setup returns an error, it still returns a shutdown function, the
  registry is empty because the error handling cleared it, and a call of the returned
  function, with any context, calls nothing, leaves the outside as it is and returns nil.
\<close>

theorem shutdown_after_failed_setup:
  assumes "snd (fst (setupOTelSDK lib ctx st0)) \<noteq> None"
  shows "\<exists>f. fst (fst (setupOTelSDK lib ctx st0)) = Some f \<and>
      f ctx' (snd (setupOTelSDK lib ctx st0)) =
        (None, (snd (setupOTelSDK lib ctx st0))
                 \<lparr>history := history (snd (setupOTelSDK lib ctx st0)) @ [Clear]\<rparr>) \<and>
      shutdownFuncs (snd (setupOTelSDK lib ctx st0)) = [] \<and>
      Clear \<in> set (new_events st0 (snd (setupOTelSDK lib ctx st0)))"
proof -
  have drained: "shutdown ctx' st = (None, st\<lparr>history := history st @ [Clear]\<rparr>)"
    if "shutdownFuncs st = []" for st :: "'a state"
    using that by (simp add: shutdown_def)
  show ?thesis
  proof (cases rule: setup_cases [of lib ctx])
    case (traces e)
    show ?thesis
      by (rule exI [of _ shutdown]) (simp add: setup_traces [OF traces] drained new_events_def)
  next
    case (metrics tp e)
    show ?thesis
      by (rule exI [of _ shutdown]) (simp add: setup_metrics [OF metrics] drained new_events_def)
  next
    case (logs tp mp e)
    show ?thesis
      by (rule exI [of _ shutdown]) (simp add: setup_logs [OF logs] drained new_events_def)
  next
    case (ok tp mp lp)
    with assms show ?thesis
      by (simp add: setup_ok)
  qed
qed

theorem shutdown_after_failed_setup_witness:
  "snd (fst (setupOTelSDK (test_lib None (Some (Err ''no reader'')) None) (Ctx 3 False)
      (registry_state [] []))) \<noteq> None \<and>
   (\<exists>f. fst (fst (setupOTelSDK (test_lib None (Some (Err ''no reader'')) None) (Ctx 3 False)
            (registry_state [] []))) = Some f \<and>
        fst (f (Ctx 4 False) (snd (setupOTelSDK (test_lib None (Some (Err ''no reader'')) None)
            (Ctx 3 False) (registry_state [] [])))) = None \<and>
        world (snd (f (Ctx 4 False) (snd (setupOTelSDK (test_lib None (Some (Err ''no reader'')) None)
            (Ctx 3 False) (registry_state [] []))))) = [0])"
proof -
  let ?run = "setupOTelSDK (test_lib None (Some (Err ''no reader'')) None) (Ctx 3 False)
      (registry_state [] [])"
  have failed: "snd (fst ?run) \<noteq> None"
    by (simp add: test_defs setupOTelSDK_def setup_steps shutdown_def Join_def)
  have outside: "world (snd ?run) = [0]"
    by (simp add: test_defs setupOTelSDK_def setup_steps shutdown_def Join_def)
  from shutdown_after_failed_setup [OF failed, of "Ctx 4 False"] outside failed
  show ?thesis by auto
qed

text \<open>
  Claim C6. Over the life of an instance, the setup followed by any number of calls of the
  returned shutdown function: whatever happens after the first clearing of the registry
  is a clearing again, so that no operation is registered and none is called once the
  registry was drained. The registry is drained exactly when shutdown was called, by the
  error handling of the setup or by the caller, and it is empty from then on.
\<close>

theorem registry_drained_once:
  "(\<forall>pre post. new_events st0 (lifetime lib ctx cs st0) = pre @ Clear # post \<longrightarrow>
      (\<forall>ev \<in> set post. ev = Clear)) \<and>
   (Clear \<in> set (new_events st0 (lifetime lib ctx cs st0)) \<longleftrightarrow>
      construction_error lib ctx \<noteq> None \<or> cs \<noteq> []) \<and>
   (Clear \<in> set (new_events st0 (lifetime lib ctx cs st0)) \<longrightarrow>
      shutdownFuncs (lifetime lib ctx cs st0) = [])"
proof -
  from lifetime_history [of st0 lib ctx cs]
  obtain xs m where h: "new_events st0 (lifetime lib ctx cs st0) = xs @ replicate m Clear"
    and open_part: "Clear \<notin> set xs"
    and drained: "0 < m \<longleftrightarrow> construction_error lib ctx \<noteq> None \<or> cs \<noteq> []"
    and empty: "0 < m \<longrightarrow> shutdownFuncs (lifetime lib ctx cs st0) = []"
    by blast
  have after: "\<forall>ev \<in> set post. ev = Clear"
    if "new_events st0 (lifetime lib ctx cs st0) = pre @ Clear # post" for pre post
    using only_Clear_after [OF open_part, of m pre post] that h by auto
  have met: "Clear \<in> set (new_events st0 (lifetime lib ctx cs st0)) \<longleftrightarrow> 0 < m"
    using open_part by (auto simp: h)
  from after met drained empty show ?thesis by blast
qed

theorem registry_drained_once_witness:
  "new_events (registry_state [] [])
      (lifetime (test_lib None None None) (Ctx 3 False) [Ctx 4 True, Ctx 5 False]
        (registry_state [] [])) =
     (SetPropagator # construction_steps @
        [Call 0 (Ctx 4 True), Call 1 (Ctx 4 True), Call 2 (Ctx 4 True)]) @ Clear # [Clear] \<and>
   Clear \<in> set (new_events (registry_state [] [])
      (lifetime (test_lib None None None) (Ctx 3 False) [Ctx 4 True, Ctx 5 False]
        (registry_state [] []))) \<and>
   shutdownFuncs (lifetime (test_lib None None None) (Ctx 3 False) [Ctx 4 True, Ctx 5 False]
      (registry_state [] [])) = [] \<and>
   world (lifetime (test_lib None None None) (Ctx 3 False) [Ctx 4 True, Ctx 5 False]
      (registry_state [] [])) = [0, 1, 2]"
proof -
  let ?end = "lifetime (test_lib None None None) (Ctx 3 False) [Ctx 4 True, Ctx 5 False]
      (registry_state [] [])"
  have h: "new_events (registry_state [] []) ?end =
      (SetPropagator # construction_steps @
        [Call 0 (Ctx 4 True), Call 1 (Ctx 4 True), Call 2 (Ctx 4 True)]) @ Clear # [Clear]"
    by (simp add: lifetime_def test_defs setupOTelSDK_def setup_steps shutdown_def new_events_def
        Join_def construction_steps_def)
  have outside: "world ?end = [0, 1, 2]"
    by (simp add: lifetime_def test_defs setupOTelSDK_def setup_steps shutdown_def Join_def)
  have met: "Clear \<in> set (new_events (registry_state [] []) ?end)"
    by (simp add: h)
  from registry_drained_once [of "registry_state [] []" "test_lib None None None" "Ctx 3 False"
      "[Ctx 4 True, Ctx 5 False]"] met
  have "shutdownFuncs ?end = []" by blast
  with h met outside show ?thesis by blast
qed

end
